theory Spec2Isabelle
  imports Main
begin

section \<open>Text and JSON values\<close>

text \<open>
  A Python \<open>str\<close> is a sequence of Unicode code points; a code point is a natural number.
  Lone surrogates (U+D800 .. U+DFFF) can occur in a \<open>str\<close> (the JSON decoder produces them
  from a \<open>u\<close>-escape of a surrogate), but the UTF-8 codec refuses to encode them.
\<close>

type_synonym pystr = "nat list"

definition asc :: "string \<Rightarrow> pystr" where
  "asc s = map of_char s"

definition NL :: nat where
  "NL = 10"

definition surrogate :: "nat \<Rightarrow> bool" where
  "surrogate c = (55296 \<le> c \<and> c \<le> 57343)"

text \<open>
  The value of \<open>request.json\<close>: what Python's JSON decoder builds. A \<open>dict\<close> keeps its
  items in insertion order, so an object is an association list. A \<open>float\<close> is carried
  as the token the encoder emits for it (\<open>float.__repr__\<close>, or one of \<open>NaN\<close>,
  \<open>Infinity\<close>, \<open>-Infinity\<close>).
\<close>

datatype jvalue =
    JNull
  | JBool bool
  | JInt int
  | JFloat pystr
  | JStr pystr
  | JArr "jvalue list"
  | JObj "(pystr \<times> jvalue) list"

section \<open>The encoder: \<open>json.dumps(data, ensure_ascii=False)\<close>\<close>

definition hexdigit :: "nat \<Rightarrow> nat" where
  "hexdigit d = (if d < 10 then 48 + d else 87 + d)"

text \<open>The four-digit lower-case hexadecimal \<open>u\<close>-escape of a code point below \<open>0x10000\<close>.\<close>

definition u_escape :: "nat \<Rightarrow> pystr" where
  "u_escape c = [92, 117] @
     [hexdigit (c div 4096 mod 16), hexdigit (c div 256 mod 16),
      hexdigit (c div 16 mod 16), hexdigit (c mod 16)]"

text \<open>
  The replacement table of \<open>json.encoder.encode_basestring\<close>: the quote, the backslash
  and the control characters below \<open>0x20\<close> are escaped, everything else is kept.
\<close>

definition esc_char :: "nat \<Rightarrow> pystr" where
  "esc_char c =
     (if c = 34 then [92, 34]
      else if c = 92 then [92, 92]
      else if c = 8 then [92, 98]
      else if c = 12 then [92, 102]
      else if c = 10 then [92, 110]
      else if c = 13 then [92, 114]
      else if c = 9 then [92, 116]
      else if c < 32 then u_escape c
      else [c])"

definition encode_basestring :: "pystr \<Rightarrow> pystr" where
  "encode_basestring s = 34 # concat (map esc_char s) @ [34]"

text \<open>\<open>int.__repr__\<close>: decimal digits, most significant first, with a sign for negatives.\<close>

fun digits :: "nat \<Rightarrow> pystr" where
  "digits n = (if n < 10 then [48 + n] else digits (n div 10) @ [48 + n mod 10])"

declare digits.simps [simp del]

definition int_repr :: "int \<Rightarrow> pystr" where
  "int_repr i = (if i < 0 then 45 # digits (nat (- i)) else digits (nat i))"

text \<open>\<open>sep.join(parts)\<close>.\<close>

fun join :: "pystr \<Rightarrow> pystr list \<Rightarrow> pystr" where
  "join sep [] = []"
| "join sep [p] = p"
| "join sep (p # q # ps) = p @ sep @ join sep (q # ps)"

text \<open>
  The compact encoder (\<open>indent=None\<close>): item separator \<open>', '\<close>, key separator
  \<open>': '\<close>, empty containers as \<open>[]\<close> and \<open>{}\<close>.
\<close>

fun dumps :: "jvalue \<Rightarrow> pystr" where
  "dumps JNull = asc ''null''"
| "dumps (JBool b) = (if b then asc ''true'' else asc ''false'')"
| "dumps (JInt i) = int_repr i"
| "dumps (JFloat t) = t"
| "dumps (JStr s) = encode_basestring s"
| "dumps (JArr xs) = asc ''['' @ join (asc '', '') (map dumps xs) @ asc '']''"
| "dumps (JObj kvs) =
     asc ''{'' @
     join (asc '', '')
       (map (\<lambda>kv. encode_basestring (fst kv) @ asc '': '' @ dumps (snd kv)) kvs) @
     asc ''}''"

text \<open>
  The indenting encoder (\<open>indent=2\<close>), used for the console only: the item separator is
  \<open>','\<close> followed by a newline and the indentation of the current level.
\<close>

definition nl_indent :: "nat \<Rightarrow> pystr" where
  "nl_indent lvl = NL # replicate (2 * lvl) 32"

fun dumps_indent :: "nat \<Rightarrow> jvalue \<Rightarrow> pystr" where
  "dumps_indent lvl JNull = asc ''null''"
| "dumps_indent lvl (JBool b) = (if b then asc ''true'' else asc ''false'')"
| "dumps_indent lvl (JInt i) = int_repr i"
| "dumps_indent lvl (JFloat t) = t"
| "dumps_indent lvl (JStr s) = encode_basestring s"
| "dumps_indent lvl (JArr xs) =
     (if xs = [] then asc ''[]''
      else asc ''['' @ nl_indent (Suc lvl) @
           join (asc '','' @ nl_indent (Suc lvl)) (map (dumps_indent (Suc lvl)) xs) @
           nl_indent lvl @ asc '']'')"
| "dumps_indent lvl (JObj kvs) =
     (if kvs = [] then asc ''{}''
      else asc ''{'' @ nl_indent (Suc lvl) @
           join (asc '','' @ nl_indent (Suc lvl))
             (map (\<lambda>kv. encode_basestring (fst kv) @ asc '': '' @
                          dumps_indent (Suc lvl) (snd kv)) kvs) @
           nl_indent lvl @ asc ''}'')"

section \<open>Exceptions\<close>

text \<open>
  The exceptions that reach the handler's \<open>except Exception\<close> clause, all of them
  subclasses of \<open>Exception\<close>: the HTTP errors that \<open>request.json\<close> raises on a body it
  cannot decode, the \<open>OSError\<close> of \<open>open\<close>, \<open>write\<close> and \<open>close\<close>, each with its
  message, and the codec's \<open>UnicodeEncodeError\<close> with the offending string and the
  range of the characters it could not encode.
\<close>

datatype exn =
    BadRequest string
  | UnsupportedMediaType string
  | OSError string
  | UnicodeEncodeError pystr nat nat

text \<open>\<open>str(e)\<close>.\<close>

fun str :: "exn \<Rightarrow> pystr" where
  "str (BadRequest m) = asc m"
| "str (UnsupportedMediaType m) = asc m"
| "str (OSError m) = asc m"
| "str (UnicodeEncodeError obj start end) =
     (case drop start obj of
        c # _ \<Rightarrow>
          if end = Suc start
          then [39] @ asc ''utf-8'' @ [39] @ asc '' codec can'' @ [39] @
               asc ''t encode character '' @ [39] @ u_escape c @ [39] @
               asc '' in position '' @ digits start @ asc '': surrogates not allowed''
          else [39] @ asc ''utf-8'' @ [39] @ asc '' codec can'' @ [39] @
               asc ''t encode characters in position '' @ digits start @ asc ''-'' @
               digits (end - 1) @ asc '': surrogates not allowed''
      | [] \<Rightarrow>
          [39] @ asc ''utf-8'' @ [39] @ asc '' codec can'' @ [39] @
          asc ''t encode characters in position '' @ digits start @ asc ''-'' @
          digits (end - 1) @ asc '': surrogates not allowed'')"

text \<open>
  The UTF-8 encoder in strict mode: it stops at the first surrogate and reports the whole
  run of surrogates that starts there.
\<close>

definition encodable :: "pystr \<Rightarrow> bool" where
  "encodable s = list_all (\<lambda>c. \<not> surrogate c) s"

definition encode_error :: "pystr \<Rightarrow> exn" where
  "encode_error s =
     (let start = length (takeWhile (\<lambda>c. \<not> surrogate c) s)
      in UnicodeEncodeError s start (start + length (takeWhile surrogate (drop start s))))"

section \<open>The world outside the handler\<close>

text \<open>
  \<open>usage_log\<close> is the text of the file \<open>usage_log.jsonl\<close> (empty when the file does not
  exist yet; opening for append creates it), \<open>stdout\<close> the text printed so far, \<open>now\<close> the
  clock as \<open>strftime\<close> formats it. The environment decides what fails: \<open>stdout_strict\<close>
  says whether the console's codec refuses surrogates, \<open>open_fault\<close> is the exception
  that \<open>open\<close> raises (the file is missing and cannot be created, permission denied),
  and \<open>write_fault = Some (k, e)\<close> is a medium that takes the first \<open>k\<close> characters of
  the flushed data and then raises \<open>e\<close> (disk full, I/O error). \<open>calls\<close> records the file
  operations the program has attempted, in order.
\<close>

datatype call = CallOpen | CallWrite pystr | CallClose

record world =
  now :: string
  usage_log :: pystr
  stdout :: pystr
  stdout_strict :: bool
  open_fault :: "exn option"
  write_fault :: "(nat \<times> exn) option"
  calls :: "call list"

text \<open>A statement either raises or returns a value, and changes the world.\<close>

type_synonym 'a io = "world \<Rightarrow> (exn + 'a) \<times> world"

definition ret :: "'a \<Rightarrow> 'a io" where
  "ret x w = (Inr x, w)"

definition raise :: "exn \<Rightarrow> 'a io" where
  "raise e w = (Inl e, w)"

definition bind :: "'a io \<Rightarrow> ('a \<Rightarrow> 'b io) \<Rightarrow> 'b io" where
  "bind m f w = (case m w of (Inl e, w') \<Rightarrow> (Inl e, w') | (Inr x, w') \<Rightarrow> f x w')"

text \<open>\<open>print(s)\<close>: the string and a newline go to the console.\<close>

definition py_print :: "pystr \<Rightarrow> unit io" where
  "py_print s w =
     (if stdout_strict w \<and> \<not> encodable s then (Inl (encode_error s), w)
      else (Inr (), w\<lparr>stdout := stdout w @ s @ [NL]\<rparr>))"

text \<open>
  \<open>open('usage_log.jsonl', 'a', encoding='utf-8')\<close> returns a file object, here the text
  it has buffered. \<open>f.write(s)\<close> encodes \<open>s\<close> and buffers it, or raises and buffers
  nothing. Closing flushes the buffer to the end of the file.
\<close>

definition py_open :: "pystr io" where
  "py_open w =
     (case open_fault w of
        Some e \<Rightarrow> (Inl e, w\<lparr>calls := calls w @ [CallOpen]\<rparr>)
      | None \<Rightarrow> (Inr [], w\<lparr>calls := calls w @ [CallOpen]\<rparr>))"

definition f_write :: "pystr \<Rightarrow> pystr \<Rightarrow> pystr io" where
  "f_write f s w =
     (if encodable s then (Inr (f @ s), w\<lparr>calls := calls w @ [CallWrite s]\<rparr>)
      else (Inl (encode_error s), w\<lparr>calls := calls w @ [CallWrite s]\<rparr>))"

definition f_close :: "pystr \<Rightarrow> unit io" where
  "f_close f w =
     (if f = [] then (Inr (), w\<lparr>calls := calls w @ [CallClose]\<rparr>)
      else case write_fault w of
        None \<Rightarrow> (Inr (), w\<lparr>usage_log := usage_log w @ f, calls := calls w @ [CallClose]\<rparr>)
      | Some (k, e) \<Rightarrow>
          (Inl e, w\<lparr>usage_log := usage_log w @ take k f, calls := calls w @ [CallClose]\<rparr>))"

text \<open>
  \<open>with open(...) as f: f.write(s)\<close>. The file is closed on the way out, also when the
  body raised; an exception of the close replaces the one of the body.
\<close>

definition with_open_write :: "pystr \<Rightarrow> unit io" where
  "with_open_write s w =
     (case py_open w of
        (Inl e, w1) \<Rightarrow> (Inl e, w1)
      | (Inr f, w1) \<Rightarrow>
          (case f_write f s w1 of
             (Inl e, w2) \<Rightarrow>
               (case f_close f w2 of
                  (Inl e', w3) \<Rightarrow> (Inl e', w3)
                | (Inr _, w3) \<Rightarrow> (Inl e, w3))
           | (Inr f', w2) \<Rightarrow> f_close f' w2))"

section \<open>The handlers\<close>

text \<open>
  Of the request the handler reads \<open>request.json\<close> only: the decoded body, or the
  exception Flask raises when the body is not JSON it can decode. A response is the
  value handed to \<open>jsonify\<close> and the status code.
\<close>

record request =
  json :: "exn + jvalue"

type_synonym response = "jvalue \<times> nat"

definition jsonify :: "(string \<times> jvalue) list \<Rightarrow> jvalue" where
  "jsonify kvs = JObj (map (\<lambda>kv. (asc (fst kv), snd kv)) kvs)"

text \<open>
  The literals of the source: the rule of sixty \<open>=\<close>, and the three Chinese texts, as
  their code points: the console message for received usage data (with its colon), the
  \<open>message\<close> of the success body, and the console prefix for an error (colon and space).
\<close>

definition banner :: pystr where
  "banner = replicate 60 61"

definition msg_received :: pystr where
  "msg_received = [25910, 21040, 29992, 37327, 25968, 25454, 58]"

definition msg_accepted :: pystr where
  "msg_accepted = [29992, 37327, 25968, 25454, 24050, 25509, 25910]"

definition msg_error :: pystr where
  "msg_error = [38169, 35823, 58, 32]"

text \<open>
  The body of the \<open>try\<close> in \<open>receive_usage\<close>, statement by statement:
  \<open>data = request.json\<close>; the four calls of \<open>print\<close> (an empty line and the rule, the
  time stamp with the message, \<open>json.dumps(data, indent=2, ensure_ascii=False)\<close>, the
  rule and an empty line); the \<open>with\<close> block that writes
  \<open>json.dumps(data, ensure_ascii=False)\<close> and a newline; and the \<open>return\<close> of the
  success body with status 200.
\<close>

definition try_body :: "request \<Rightarrow> response io" where
  "try_body req =
     bind (case json req of Inl e \<Rightarrow> raise e | Inr data \<Rightarrow> ret data) (\<lambda>data.
     bind (py_print (NL # banner)) (\<lambda>_.
     bind (\<lambda>w. py_print (asc ''['' @ asc (now w) @ asc ''] '' @ msg_received) w) (\<lambda>_.
     bind (py_print (dumps_indent 0 data)) (\<lambda>_.
     bind (py_print (banner @ [NL])) (\<lambda>_.
     bind (with_open_write (dumps data @ [NL])) (\<lambda>_.
     ret (jsonify [(''status'', JStr (asc ''ok'')), (''message'', JStr msg_accepted)], 200)))))))"

text \<open>
  \<open>receive_usage\<close>: the \<open>try\<close>, and the one \<open>except Exception as e\<close> clause, which
  prints the error and returns the error body with \<open>str(e)\<close> and status 500.
\<close>

definition receive_usage :: "request \<Rightarrow> response io" where
  "receive_usage req w =
     (case try_body req w of
        (Inr resp, w') \<Rightarrow> (Inr resp, w')
      | (Inl e, w') \<Rightarrow>
          bind (py_print (msg_error @ str e)) (\<lambda>_.
          ret (jsonify [(''status'', JStr (asc ''error'')), (''message'', JStr (str e))], 500)) w')"

text \<open>\<open>health\<close>: one \<open>return\<close>.\<close>

definition health :: "response io" where
  "health = ret (jsonify [(''status'', JStr (asc ''healthy''))], 200)"

section \<open>Reading the log back: \<open>json.loads\<close> on one line\<close>

text \<open>
  The program never reads its log; a reader does, line by line. This is the decoder of
  Python's \<open>json\<close> module, the one that produced \<open>request.json\<close> in the first place:
  white space between tokens, strings with their escapes (a pair of surrogate escapes
  becomes one code point, control characters are refused), numbers by the pattern
  \<open>-?(0|[1-9][0-9]*)(.[0-9]+)?([eE][-+]?[0-9]+)?\<close>, the constants \<open>NaN\<close>, \<open>Infinity\<close> and
  \<open>-Infinity\<close>, and objects as dictionaries, where a repeated key keeps its place and
  takes the later value. A number with a fraction or an exponent is a \<open>float\<close>, carried
  as the text it was read from.
\<close>

definition is_ws :: "nat \<Rightarrow> bool" where
  "is_ws c = (c = 32 \<or> c = 9 \<or> c = 10 \<or> c = 13)"

definition skip_ws :: "pystr \<Rightarrow> pystr" where
  "skip_ws s = dropWhile is_ws s"

definition is_digit :: "nat \<Rightarrow> bool" where
  "is_digit c = (48 \<le> c \<and> c \<le> 57)"


















section \<open>The values \<open>request.json\<close> can be\<close>








section \<open>The log as a sequence of records\<close>

text \<open>
  The texts handed to \<open>f.write\<close> among a sequence of file operations, and the invariant
  of a line-delimited JSON log: the text is empty or ends with a newline, and every line
  is read by \<open>loads\<close> on its own.
\<close>

fun writes :: "call list \<Rightarrow> pystr list" where
  "writes [] = []"
| "writes (CallWrite s # cs) = s # writes cs"
| "writes (c # cs) = writes cs"


text \<open>What no statement of the handler changes: the faults of the environment.\<close>

definition same_faults :: "world \<Rightarrow> world \<Rightarrow> bool" where
  "same_faults w w' =
     (open_fault w' = open_fault w \<and> write_fault w' = write_fault w \<and>
      stdout_strict w' = stdout_strict w)"

section \<open>Concrete requests and worlds\<close>

text \<open>
  A console and a disk in working order; a request whose body is the JSON object
  \<open>{"model": "gpt-4", "tokens": 123}\<close>, one whose body is the text \<open>not-json\<close>, which
  Flask refuses, and one whose body is a JSON string with the escape of a lone
  surrogate; a disk that has room for five more characters, and a file that may not be
  opened.
\<close>

definition world0 :: world where
  "world0 = \<lparr>now = ''2024-01-01 00:00:00'', usage_log = [], stdout = [],
     stdout_strict = True, open_fault = None, write_fault = None, calls = []\<rparr>"

definition gpt4 :: jvalue where
  "gpt4 = JObj [(asc ''model'', JStr (asc ''gpt-4'')), (asc ''tokens'', JInt 123)]"

definition req_gpt4 :: request where
  "req_gpt4 = \<lparr>json = Inr gpt4\<rparr>"

definition req_not_json :: request where
  "req_not_json =
     \<lparr>json = Inl (BadRequest
        ''400 Bad Request: Failed to decode JSON object: Expecting value: line 1 column 1 (char 0)'')\<rparr>"



definition world_readonly :: world where
  "world_readonly =
     world0\<lparr>open_fault := Some (OSError ''[Errno 13] Permission denied: usage_log.jsonl'')\<rparr>"

section \<open>Properties of the model\<close>

lemma of_char_less: "(of_char c :: nat) < 256"
proof -
  have "(of_char c :: nat) mod 256 = of_char c" by simp
  then show ?thesis by (metis mod_less_divisor zero_less_numeral)
qed

lemma encodable_append [simp]: "encodable (s @ t) = (encodable s \<and> encodable t)"
  by (simp add: encodable_def)

lemma encodable_Cons [simp]: "encodable (c # s) = (\<not> surrogate c \<and> encodable s)"
  by (simp add: encodable_def)

lemma encodable_Nil [simp]: "encodable []"
  by (simp add: encodable_def)

lemma low_not_surrogate: "c < 256 \<Longrightarrow> \<not> surrogate c"
  by (simp add: surrogate_def)

lemma encodable_asc [simp]: "encodable (asc m)"
  by (induction m) (simp_all add: asc_def low_not_surrogate of_char_less)

lemma digits_low: "c \<in> set (digits n) \<Longrightarrow> 48 \<le> c \<and> c \<le> 57"
proof (induction n arbitrary: c rule: digits.induct)
  case (1 n)
  show ?case
  proof (cases "n < 10")
    case True
    with "1.prems" show ?thesis by (simp add: digits.simps [of n])
  next
    case False
    with "1.prems" have "c \<in> set (digits (n div 10)) \<or> c = 48 + n mod 10"
      by (auto simp: digits.simps [of n])
    then show ?thesis
    proof
      assume "c \<in> set (digits (n div 10))"
      with False "1.IH" show ?thesis by simp
    next
      assume "c = 48 + n mod 10"
      moreover have "n mod 10 < 10" by simp
      ultimately show ?thesis by linarith
    qed
  qed
qed

lemma encodable_digits [simp]: "encodable (digits n)"
proof -
  have "\<not> surrogate c" if "c \<in> set (digits n)" for c
    using digits_low [OF that] by (simp add: surrogate_def)
  then show ?thesis by (simp add: encodable_def list_all_iff)
qed

lemma hexdigit_mod: "hexdigit (x mod 16) < 128"
proof -
  have "x mod 16 < 16" by simp
  then show ?thesis unfolding hexdigit_def by presburger
qed

lemma encodable_u_escape [simp]: "encodable (u_escape c)"
  using hexdigit_mod [of "c div 4096"] hexdigit_mod [of "c div 256"]
    hexdigit_mod [of "c div 16"] hexdigit_mod [of c]
  by (simp add: u_escape_def surrogate_def)

lemma encodable_str [simp]: "encodable (str e)"
  by (cases e) (simp_all add: surrogate_def split: list.splits)


subsection \<open>The statements of the handler, one by one\<close>

lemma py_print_ok:
  "\<not> stdout_strict w \<or> encodable s \<Longrightarrow>
   py_print s w = (Inr (), w\<lparr>stdout := stdout w @ s @ [NL]\<rparr>)"
  by (auto simp: py_print_def)

lemma py_print_fail:
  "stdout_strict w \<Longrightarrow> \<not> encodable s \<Longrightarrow> py_print s w = (Inl (encode_error s), w)"
  by (simp add: py_print_def)

lemma py_print_keeps:
  "usage_log (snd (py_print s w)) = usage_log w"
  "calls (snd (py_print s w)) = calls w"
  "open_fault (snd (py_print s w)) = open_fault w"
  "write_fault (snd (py_print s w)) = write_fault w"
  "stdout_strict (snd (py_print s w)) = stdout_strict w"
  "now (snd (py_print s w)) = now w"
  by (simp_all add: py_print_def)

lemma jsonify2:
  "jsonify [(k1, v1), (k2, v2)] = JObj [(asc k1, v1), (asc k2, v2)]"
  by (simp add: jsonify_def)

lemma jsonify1: "jsonify [(k1, v1)] = JObj [(asc k1, v1)]"
  by (simp add: jsonify_def)

lemma receive_usage_raised:
  assumes "try_body req w = (Inl e, w')"
  shows "receive_usage req w =
     (Inr (JObj [(asc ''status'', JStr (asc ''error'')), (asc ''message'', JStr (str e))], 500),
      w'\<lparr>stdout := stdout w' @ msg_error @ str e @ [NL]\<rparr>)"
proof -
  have enc: "encodable (msg_error @ str e)"
    by (simp add: msg_error_def surrogate_def)
  show ?thesis
    using assms py_print_ok [of w' "msg_error @ str e"] enc
    by (simp add: receive_usage_def bind_def ret_def jsonify2)
qed

lemma receive_usage_returned:
  "try_body req w = (Inr r, w') \<Longrightarrow> receive_usage req w = (Inr r, w')"
  by (simp add: receive_usage_def)

lemma try_body_not_json:
  "json req = Inl e \<Longrightarrow> try_body req w = (Inl e, w)"
  by (simp add: try_body_def bind_def raise_def)

text \<open>The handler catches every exception of its body: it always returns a response.\<close>

lemma receive_usage_total: "\<exists>resp. fst (receive_usage req w) = Inr resp"
proof (cases "try_body req w")
  case (Pair r w')
  then show ?thesis
    by (cases r) (simp_all add: receive_usage_raised receive_usage_returned)
qed

lemma with_open_write_open_fault:
  "open_fault w = Some e \<Longrightarrow>
   with_open_write s w = (Inl e, w\<lparr>calls := calls w @ [CallOpen]\<rparr>)"
  by (simp add: with_open_write_def py_open_def)

lemma with_open_write_unencodable:
  "open_fault w = None \<Longrightarrow> \<not> encodable s \<Longrightarrow>
   with_open_write s w =
     (Inl (encode_error s), w\<lparr>calls := calls w @ [CallOpen, CallWrite s, CallClose]\<rparr>)"
  by (simp add: with_open_write_def py_open_def f_write_def f_close_def)

lemma with_open_write_ok:
  "open_fault w = None \<Longrightarrow> encodable s \<Longrightarrow> write_fault w = None \<Longrightarrow>
   with_open_write s w =
     (Inr (), w\<lparr>usage_log := usage_log w @ s,
                calls := calls w @ [CallOpen, CallWrite s, CallClose]\<rparr>)"
  by (cases "s = []") (simp_all add: with_open_write_def py_open_def f_write_def f_close_def)

lemma with_open_write_fault:
  "open_fault w = None \<Longrightarrow> encodable s \<Longrightarrow> s \<noteq> [] \<Longrightarrow> write_fault w = Some (k, e) \<Longrightarrow>
   with_open_write s w =
     (Inl e, w\<lparr>usage_log := usage_log w @ take k s,
               calls := calls w @ [CallOpen, CallWrite s, CallClose]\<rparr>)"
  by (simp add: with_open_write_def py_open_def f_write_def f_close_def)

text \<open>What the four \<open>print\<close> calls before the append add to the console.\<close>

lemma try_body_printed:
  assumes "json req = Inr data"
    and "\<not> stdout_strict w \<or> encodable (dumps_indent 0 data)"
  shows "try_body req w =
     (case with_open_write (dumps data @ [NL])
             (w\<lparr>stdout := stdout w @ (NL # banner) @ [NL] @
                  (asc ''['' @ asc (now w) @ asc ''] '' @ msg_received) @ [NL] @
                  dumps_indent 0 data @ [NL] @ (banner @ [NL]) @ [NL]\<rparr>) of
        (Inl e, w') \<Rightarrow> (Inl e, w')
      | (Inr u, w') \<Rightarrow>
          (Inr (JObj [(asc ''status'', JStr (asc ''ok'')), (asc ''message'', JStr msg_accepted)],
                200), w'))"
proof -
  have b: "encodable banner" by (simp add: banner_def encodable_def list_all_iff surrogate_def)
  have m: "encodable msg_received" by (simp add: msg_received_def surrogate_def)
  have n: "\<not> surrogate NL" by (simp add: NL_def surrogate_def)
  show ?thesis
    using assms b m n
    by (auto simp: try_body_def bind_def ret_def py_print_def jsonify2 split: prod.splits sum.splits)
qed

lemma try_body_print_fail:
  assumes "json req = Inr data" and "stdout_strict w" and "\<not> encodable (dumps_indent 0 data)"
  shows "try_body req w =
     (Inl (encode_error (dumps_indent 0 data)),
      w\<lparr>stdout := stdout w @ (NL # banner) @ [NL] @
           (asc ''['' @ asc (now w) @ asc ''] '' @ msg_received) @ [NL]\<rparr>)"
proof -
  have b: "encodable banner" by (simp add: banner_def encodable_def list_all_iff surrogate_def)
  have m: "encodable msg_received" by (simp add: msg_received_def surrogate_def)
  have n: "\<not> surrogate NL" by (simp add: NL_def surrogate_def)
  show ?thesis
    using assms b m n
    by (simp add: try_body_def bind_def ret_def py_print_def)
qed

subsection \<open>What the encoders emit\<close>

lemma encodable_join:
  "encodable sep \<Longrightarrow> encodable (join sep ps) = (\<forall>p \<in> set ps. encodable p)"
  by (induction sep ps rule: join.induct) auto

lemma encodable_nl_indent [simp]: "encodable (nl_indent lvl)"
  by (simp add: nl_indent_def NL_def surrogate_def encodable_def list_all_iff)

lemma encodable_int_repr [simp]: "encodable (int_repr i)"
  by (simp add: int_repr_def surrogate_def)

text \<open>
  The two encoders emit the same strings, keys and number tokens and differ in white
  space only, so the console's codec takes one text when the file's codec takes the other.
\<close>

lemma encodable_dumps_indent:
  "encodable (dumps_indent lvl v) = encodable (dumps v)"
proof (induction v arbitrary: lvl)
  case (JArr xs)
  then show ?case by (cases "xs = []") (simp_all add: encodable_join)
next
  case (JObj kvs)
  have "encodable (dumps_indent l (snd kv)) = encodable (dumps (snd kv))"
    if "kv \<in> set kvs" for kv l
  proof -
    have "snd kv \<in> Basic_BNFs.snds kv" by (cases kv) simp
    with that show ?thesis by (rule JObj)
  qed
  then show ?case by (cases "kvs = []") (simp_all add: encodable_join)
qed simp_all

subsection \<open>The handler by cases\<close>

lemma receive_usage_fst:
  "fst (receive_usage req w) =
     (case fst (try_body req w) of
        Inl e \<Rightarrow> Inr (JObj [(asc ''status'', JStr (asc ''error'')),
                            (asc ''message'', JStr (str e))], 500)
      | Inr r \<Rightarrow> Inr r)"
proof (cases "try_body req w")
  case (Pair r w')
  then show ?thesis
    by (cases r) (simp_all add: receive_usage_raised receive_usage_returned)
qed

lemma receive_usage_snd:
  "usage_log (snd (receive_usage req w)) = usage_log (snd (try_body req w))"
  "calls (snd (receive_usage req w)) = calls (snd (try_body req w))"
proof -
  obtain r w' where t: "try_body req w = (r, w')" by (cases "try_body req w")
  show "usage_log (snd (receive_usage req w)) = usage_log (snd (try_body req w))"
    using t by (cases r) (simp_all add: receive_usage_raised receive_usage_returned)
  show "calls (snd (receive_usage req w)) = calls (snd (try_body req w))"
    using t by (cases r) (simp_all add: receive_usage_raised receive_usage_returned)
qed

lemma not_surrogate_NL [simp]: "\<not> surrogate NL"
  by (simp add: NL_def surrogate_def)

lemma try_body_console_refuses:
  assumes "json req = Inr data" and "stdout_strict w" and "\<not> encodable (dumps data)"
  shows "fst (try_body req w) = Inl (encode_error (dumps_indent 0 data))"
    and "usage_log (snd (try_body req w)) = usage_log w"
    and "calls (snd (try_body req w)) = calls w"
  using assms by (simp_all add: try_body_print_fail encodable_dumps_indent)

lemma try_body_reaches_append:
  assumes "json req = Inr data" and "\<not> stdout_strict w \<or> encodable (dumps data)"
  obtains w1 where
    "try_body req w =
       (case with_open_write (dumps data @ [NL]) w1 of
          (Inl e, w') \<Rightarrow> (Inl e, w')
        | (Inr u, w') \<Rightarrow>
            (Inr (JObj [(asc ''status'', JStr (asc ''ok'')),
                        (asc ''message'', JStr msg_accepted)], 200), w'))"
    and "usage_log w1 = usage_log w" and "calls w1 = calls w"
    and "open_fault w1 = open_fault w" and "write_fault w1 = write_fault w"
proof -
  let ?w = "w\<lparr>stdout := stdout w @ (NL # banner) @ [NL] @
                  (asc ''['' @ asc (now w) @ asc ''] '' @ msg_received) @ [NL] @
                  dumps_indent 0 data @ [NL] @ (banner @ [NL]) @ [NL]\<rparr>"
  show thesis
  proof (rule that [of ?w])
    show "try_body req w =
       (case with_open_write (dumps data @ [NL]) ?w of
          (Inl e, w') \<Rightarrow> (Inl e, w')
        | (Inr u, w') \<Rightarrow>
            (Inr (JObj [(asc ''status'', JStr (asc ''ok'')),
                        (asc ''message'', JStr msg_accepted)], 200), w'))"
      using assms by (intro try_body_printed) (simp_all add: encodable_dumps_indent)
  qed simp_all
qed

lemma try_body_open_fails:
  assumes "json req = Inr data" and "\<not> stdout_strict w \<or> encodable (dumps data)"
    and "open_fault w = Some e"
  shows "fst (try_body req w) = Inl e"
    and "usage_log (snd (try_body req w)) = usage_log w"
    and "calls (snd (try_body req w)) = calls w @ [CallOpen]"
proof -
  obtain w1 where t: "try_body req w =
       (case with_open_write (dumps data @ [NL]) w1 of
          (Inl e, w') \<Rightarrow> (Inl e, w')
        | (Inr u, w') \<Rightarrow>
            (Inr (JObj [(asc ''status'', JStr (asc ''ok'')),
                        (asc ''message'', JStr msg_accepted)], 200), w'))"
    and k: "usage_log w1 = usage_log w" "calls w1 = calls w"
      "open_fault w1 = open_fault w" "write_fault w1 = write_fault w"
    using assms(1,2) by (rule try_body_reaches_append)
  have "with_open_write (dumps data @ [NL]) w1 = (Inl e, w1\<lparr>calls := calls w1 @ [CallOpen]\<rparr>)"
    using assms(3) k by (intro with_open_write_open_fault) simp
  with t k show "fst (try_body req w) = Inl e"
    and "usage_log (snd (try_body req w)) = usage_log w"
    and "calls (snd (try_body req w)) = calls w @ [CallOpen]"
    by simp_all
qed

lemma try_body_file_refuses:
  assumes "json req = Inr data" and "\<not> stdout_strict w" and "\<not> encodable (dumps data)"
    and "open_fault w = None"
  shows "fst (try_body req w) = Inl (encode_error (dumps data @ [NL]))"
    and "usage_log (snd (try_body req w)) = usage_log w"
    and "calls (snd (try_body req w)) =
           calls w @ [CallOpen, CallWrite (dumps data @ [NL]), CallClose]"
proof -
  from assms(2) have p: "\<not> stdout_strict w \<or> encodable (dumps data)" by simp
  obtain w1 where t: "try_body req w =
       (case with_open_write (dumps data @ [NL]) w1 of
          (Inl e, w') \<Rightarrow> (Inl e, w')
        | (Inr u, w') \<Rightarrow>
            (Inr (JObj [(asc ''status'', JStr (asc ''ok'')),
                        (asc ''message'', JStr msg_accepted)], 200), w'))"
    and k: "usage_log w1 = usage_log w" "calls w1 = calls w"
      "open_fault w1 = open_fault w" "write_fault w1 = write_fault w"
    using assms(1) p by (rule try_body_reaches_append)
  have "with_open_write (dumps data @ [NL]) w1 =
      (Inl (encode_error (dumps data @ [NL])),
       w1\<lparr>calls := calls w1 @ [CallOpen, CallWrite (dumps data @ [NL]), CallClose]\<rparr>)"
    using assms(3,4) k by (intro with_open_write_unencodable) simp_all
  with t k show "fst (try_body req w) = Inl (encode_error (dumps data @ [NL]))"
    and "usage_log (snd (try_body req w)) = usage_log w"
    and "calls (snd (try_body req w)) =
           calls w @ [CallOpen, CallWrite (dumps data @ [NL]), CallClose]"
    by simp_all
qed

lemma try_body_medium_fails:
  assumes "json req = Inr data" and "encodable (dumps data)"
    and "open_fault w = None" and "write_fault w = Some (k, e)"
  shows "fst (try_body req w) = Inl e"
    and "usage_log (snd (try_body req w)) = usage_log w @ take k (dumps data @ [NL])"
    and "calls (snd (try_body req w)) =
           calls w @ [CallOpen, CallWrite (dumps data @ [NL]), CallClose]"
proof -
  from assms(2) have p: "\<not> stdout_strict w \<or> encodable (dumps data)" by simp
  obtain w1 where t: "try_body req w =
       (case with_open_write (dumps data @ [NL]) w1 of
          (Inl e, w') \<Rightarrow> (Inl e, w')
        | (Inr u, w') \<Rightarrow>
            (Inr (JObj [(asc ''status'', JStr (asc ''ok'')),
                        (asc ''message'', JStr msg_accepted)], 200), w'))"
    and k: "usage_log w1 = usage_log w" "calls w1 = calls w"
      "open_fault w1 = open_fault w" "write_fault w1 = write_fault w"
    using assms(1) p by (rule try_body_reaches_append)
  have "with_open_write (dumps data @ [NL]) w1 =
      (Inl e, w1\<lparr>usage_log := usage_log w1 @ take k (dumps data @ [NL]),
          calls := calls w1 @ [CallOpen, CallWrite (dumps data @ [NL]), CallClose]\<rparr>)"
    using assms(2,3,4) k by (intro with_open_write_fault) simp_all
  with t k show "fst (try_body req w) = Inl e"
    and "usage_log (snd (try_body req w)) = usage_log w @ take k (dumps data @ [NL])"
    and "calls (snd (try_body req w)) =
           calls w @ [CallOpen, CallWrite (dumps data @ [NL]), CallClose]"
    by simp_all
qed

lemma try_body_appends:
  assumes "json req = Inr data" and "encodable (dumps data)"
    and "open_fault w = None" and "write_fault w = None"
  shows "fst (try_body req w) =
           Inr (JObj [(asc ''status'', JStr (asc ''ok'')),
                      (asc ''message'', JStr msg_accepted)], 200)"
    and "usage_log (snd (try_body req w)) = usage_log w @ dumps data @ [NL]"
    and "calls (snd (try_body req w)) =
           calls w @ [CallOpen, CallWrite (dumps data @ [NL]), CallClose]"
proof -
  from assms(2) have p: "\<not> stdout_strict w \<or> encodable (dumps data)" by simp
  obtain w1 where t: "try_body req w =
       (case with_open_write (dumps data @ [NL]) w1 of
          (Inl e, w') \<Rightarrow> (Inl e, w')
        | (Inr u, w') \<Rightarrow>
            (Inr (JObj [(asc ''status'', JStr (asc ''ok'')),
                        (asc ''message'', JStr msg_accepted)], 200), w'))"
    and k: "usage_log w1 = usage_log w" "calls w1 = calls w"
      "open_fault w1 = open_fault w" "write_fault w1 = write_fault w"
    using assms(1) p by (rule try_body_reaches_append)
  have "with_open_write (dumps data @ [NL]) w1 =
      (Inr (), w1\<lparr>usage_log := usage_log w1 @ dumps data @ [NL],
          calls := calls w1 @ [CallOpen, CallWrite (dumps data @ [NL]), CallClose]\<rparr>)"
    using assms(2,3,4) k by (intro with_open_write_ok) simp_all
  with t k show "fst (try_body req w) =
           Inr (JObj [(asc ''status'', JStr (asc ''ok'')),
                      (asc ''message'', JStr msg_accepted)], 200)"
    and "usage_log (snd (try_body req w)) = usage_log w @ dumps data @ [NL]"
    and "calls (snd (try_body req w)) =
           calls w @ [CallOpen, CallWrite (dumps data @ [NL]), CallClose]"
    by simp_all
qed

lemma encodable_esc_char: "encodable (esc_char c) = (\<not> surrogate c)"
proof (cases "c < 32")
  case True
  then show ?thesis by (simp add: esc_char_def surrogate_def)
next
  case False
  then show ?thesis by (simp add: esc_char_def surrogate_def)
qed

lemma encodable_concat_esc: "encodable (concat (map esc_char s)) = encodable s"
  by (induction s) (simp_all add: encodable_esc_char)

lemma encodable_encode_basestring [simp]: "encodable (encode_basestring s) = encodable s"
  by (simp add: encode_basestring_def encodable_concat_esc surrogate_def)


subsection \<open>When the handler fails and when it succeeds\<close>

lemma try_body_failure:
  assumes j: "json req = Inr data"
    and f: "open_fault w \<noteq> None \<or> write_fault w \<noteq> None \<or> \<not> encodable (dumps data)"
  shows "\<exists>e. fst (try_body req w) = Inl e"
    and "take (length (usage_log w)) (usage_log (snd (try_body req w))) = usage_log w"
    and "open_fault w \<noteq> None \<or> \<not> encodable (dumps data) \<Longrightarrow>
         usage_log (snd (try_body req w)) = usage_log w"
    and "\<And>k e. open_fault w = None \<Longrightarrow> encodable (dumps data) \<Longrightarrow>
           write_fault w = Some (k, e) \<Longrightarrow>
           usage_log (snd (try_body req w)) = usage_log w @ take k (dumps data @ [NL])"
proof -
  have c: "(stdout_strict w \<and> \<not> encodable (dumps data)) \<or>
      ((\<not> stdout_strict w \<or> encodable (dumps data)) \<and> (\<exists>e. open_fault w = Some e)) \<or>
      (\<not> stdout_strict w \<and> \<not> encodable (dumps data) \<and> open_fault w = None) \<or>
      (encodable (dumps data) \<and> open_fault w = None \<and> (\<exists>k e. write_fault w = Some (k, e)))"
    using f by (cases "open_fault w"; cases "write_fault w") auto
  show "\<exists>e. fst (try_body req w) = Inl e"
    using c j
    by (auto simp: try_body_console_refuses try_body_open_fails try_body_file_refuses
          try_body_medium_fails)
  show "take (length (usage_log w)) (usage_log (snd (try_body req w))) = usage_log w"
    using c j
    by (auto simp: try_body_console_refuses try_body_open_fails try_body_file_refuses
          try_body_medium_fails)
  show "usage_log (snd (try_body req w)) = usage_log w"
    if "open_fault w \<noteq> None \<or> \<not> encodable (dumps data)"
    using c j that
    by (auto simp: try_body_console_refuses try_body_open_fails try_body_file_refuses)
  show "usage_log (snd (try_body req w)) = usage_log w @ take k (dumps data @ [NL])"
    if "open_fault w = None" "encodable (dumps data)" "write_fault w = Some (k, e)" for k e
    using j that by (simp add: try_body_medium_fails)
qed

lemma status_200_only_after_append:
  assumes "fst (receive_usage req w) = Inr (body, 200)"
  obtains data where "json req = Inr data" and "encodable (dumps data)"
    and "open_fault w = None" and "write_fault w = None"
proof (cases "json req")
  case (Inl e)
  then have "fst (try_body req w) = Inl e" by (simp add: try_body_not_json)
  with assms show ?thesis by (simp add: receive_usage_fst)
next
  case (Inr data)
  have "\<not> (open_fault w \<noteq> None \<or> write_fault w \<noteq> None \<or> \<not> encodable (dumps data))"
  proof
    assume "open_fault w \<noteq> None \<or> write_fault w \<noteq> None \<or> \<not> encodable (dumps data)"
    with Inr obtain e where "fst (try_body req w) = Inl e"
      using try_body_failure(1) by blast
    with assms show False by (simp add: receive_usage_fst)
  qed
  then have "encodable (dumps data)" "open_fault w = None" "write_fault w = None"
    by (cases "write_fault w"; auto)+
  with Inr show ?thesis by (intro that [of data])
qed

subsection \<open>Strings are read back\<close>





lemma scanstring_encode_basestring:
  "encode_basestring s @ rest = 34 # concat (map esc_char s) @ 34 # rest"
  by (simp add: encode_basestring_def)

subsection \<open>Numbers are read back\<close>

lemma digits_is_digit: "c \<in> set (digits n) \<Longrightarrow> is_digit c"
  using digits_low [of c n] by (simp add: is_digit_def)

lemma digits_not_Nil [simp]: "digits n \<noteq> []"
  by (subst digits.simps) simp










lemma takeWhile_digits [simp]: "takeWhile is_digit (digits n) = digits n"
  by (simp add: takeWhile_eq_all_conv digits_is_digit)

lemma dropWhile_digits [simp]: "dropWhile is_digit (digits n) = []"
  by (simp add: dropWhile_eq_Nil_conv digits_is_digit)








subsection \<open>Dictionaries, white space and the first character of a value\<close>






lemma skip_ws_Nil [simp]: "skip_ws [] = []"
  by (simp add: skip_ws_def)




subsection \<open>Values are read back\<close>










lemma dumps_JArr_items:
  "dumps (JArr xs) = 91 # join (asc '', '') (map dumps xs) @ [93]"
  by (simp add: asc_def)







subsection \<open>The fuel of \<open>loads\<close> suffices\<close>




subsection \<open>A record is one line\<close>














subsection \<open>The handler leaves the environment's faults alone and writes at most once\<close>

lemma same_faults_refl [simp]: "same_faults w w"
  by (simp add: same_faults_def)

lemma same_faults_trans: "same_faults w w1 \<Longrightarrow> same_faults w1 w2 \<Longrightarrow> same_faults w w2"
  by (simp add: same_faults_def)

lemma same_faults_bind:
  assumes "\<And>w. same_faults w (snd (m w))" and "\<And>x w. same_faults w (snd (f x w))"
  shows "same_faults w (snd (bind m f w))"
proof (cases "m w")
  case (Pair r w1)
  have 1: "same_faults w w1" using assms(1) [of w] Pair by simp
  show ?thesis
  proof (cases r)
    case (Inl e)
    with Pair 1 show ?thesis by (simp add: bind_def)
  next
    case (Inr x)
    have "same_faults w1 (snd (f x w1))" by (rule assms(2))
    with 1 have "same_faults w (snd (f x w1))" by (rule same_faults_trans)
    with Pair Inr show ?thesis by (simp add: bind_def)
  qed
qed

lemma same_faults_ret [simp]: "same_faults w (snd (ret x w))"
  by (simp add: ret_def)

lemma same_faults_raise [simp]: "same_faults w (snd (raise e w))"
  by (simp add: raise_def)

lemma same_faults_py_print [simp]: "same_faults w (snd (py_print s w))"
  by (simp add: py_print_def same_faults_def)

lemma same_faults_with_open_write [simp]: "same_faults w (snd (with_open_write s w))"
  by (auto simp: with_open_write_def py_open_def f_write_def f_close_def same_faults_def
        split: option.splits)

lemma same_faults_try_body: "same_faults w (snd (try_body req w))"
  unfolding try_body_def
  by (intro same_faults_bind) (simp_all split: sum.splits)

lemma same_faults_receive_usage: "same_faults w (snd (receive_usage req w))"
proof (cases "try_body req w")
  case (Pair r w')
  have 1: "same_faults w w'" using same_faults_try_body [of w req] Pair by simp
  show ?thesis
  proof (cases r)
    case (Inl e)
    with Pair 1 show ?thesis
      by (simp add: receive_usage_raised same_faults_def)
  next
    case (Inr resp)
    with Pair 1 show ?thesis by (simp add: receive_usage_returned)
  qed
qed

lemma writes_append [simp]: "writes (cs @ ds) = writes cs @ writes ds"
  by (induction cs rule: writes.induct) simp_all


subsection \<open>The invariant of the log\<close>





text \<open>
  Requests handled one after the other are recorded in that order: when the handler has
  returned for \<open>A\<close> before it is called for \<open>B\<close>, the record of \<open>A\<close> precedes the record
  of \<open>B\<close>.
\<close>

lemma sequential_requests_in_order:
  assumes "json reqA = Inr A" and "encodable (dumps A)"
    and "json reqB = Inr B" and "encodable (dumps B)"
    and "open_fault w = None" and "write_fault w = None"
  shows "usage_log (snd (receive_usage reqB (snd (receive_usage reqA w)))) =
           usage_log w @ dumps A @ [NL] @ dumps B @ [NL]"
proof -
  let ?w1 = "snd (receive_usage reqA w)"
  have f1: "open_fault ?w1 = None" "write_fault ?w1 = None"
    using same_faults_receive_usage [of w reqA] assms(5,6) by (simp_all add: same_faults_def)
  have "usage_log ?w1 = usage_log w @ dumps A @ [NL]"
    using try_body_appends(2) [OF assms(1,2,5,6)] by (simp add: receive_usage_snd)
  moreover have "usage_log (snd (receive_usage reqB ?w1)) = usage_log ?w1 @ dumps B @ [NL]"
    using try_body_appends(2) [OF assms(3,4) f1] by (simp add: receive_usage_snd)
  ultimately show ?thesis by simp
qed

section \<open>The properties of the two handlers\<close>










text \<open>
  C4. The 200 response is produced only after the append is complete: in the world the
  handler returns with a 200 response, the whole line of the request is at the end of the
  file, and the handler's file operations were, in this order, the \<open>open\<close>, the \<open>write\<close>
  of that line, and the \<open>close\<close> that flushed it.
\<close>

theorem success_only_after_flush:
  assumes "fst (receive_usage req w) = Inr (body, 200)"
  shows "\<exists>data. json req = Inr data \<and>
           usage_log (snd (receive_usage req w)) = usage_log w @ dumps data @ [NL] \<and>
           calls (snd (receive_usage req w)) =
             calls w @ [CallOpen, CallWrite (dumps data @ [NL]), CallClose]"
proof -
  from assms obtain data where d: "json req = Inr data" "encodable (dumps data)"
    "open_fault w = None" "write_fault w = None"
    by (rule status_200_only_after_append)
  from try_body_appends(2,3) [OF d] d(1) show ?thesis
    by (simp add: receive_usage_snd)
qed

theorem success_only_after_flush_witness:
  "fst (receive_usage req_gpt4 world0) =
     Inr (JObj [(asc ''status'', JStr (asc ''ok'')), (asc ''message'', JStr msg_accepted)], 200) \<and>
   (\<exists>data. json req_gpt4 = Inr data \<and>
      usage_log (snd (receive_usage req_gpt4 world0)) = usage_log world0 @ dumps data @ [NL] \<and>
      calls (snd (receive_usage req_gpt4 world0)) =
        calls world0 @ [CallOpen, CallWrite (dumps data @ [NL]), CallClose])"
proof -
  have j: "json req_gpt4 = Inr gpt4" by (simp add: req_gpt4_def)
  have e: "encodable (dumps gpt4)" by (simp add: gpt4_def surrogate_def int_repr_def)
  have "fst (try_body req_gpt4 world0) =
     Inr (JObj [(asc ''status'', JStr (asc ''ok'')), (asc ''message'', JStr msg_accepted)], 200)"
    using j e by (rule try_body_appends) (simp_all add: world0_def)
  then have r: "fst (receive_usage req_gpt4 world0) =
     Inr (JObj [(asc ''status'', JStr (asc ''ok'')), (asc ''message'', JStr msg_accepted)], 200)"
    by (simp add: receive_usage_fst)
  from success_only_after_flush [OF r] r show ?thesis by simp
qed



text \<open>
  C7. The health handler answers 200 with the body \<open>{"status": "healthy"}\<close> in every
  world and leaves the world as it is; in particular it answers so in the world that any
  usage request, accepted or failed, has left behind.
\<close>

theorem health_always_healthy:
  "health w = (Inr (JObj [(asc ''status'', JStr (asc ''healthy''))], 200), w) \<and>
   fst (health (snd (receive_usage req w))) =
     Inr (JObj [(asc ''status'', JStr (asc ''healthy''))], 200)"
  by (simp add: health_def ret_def jsonify1)

theorem health_always_healthy_witness:
  "fst (health (snd (receive_usage req_not_json world_readonly))) =
     Inr (JObj [(asc ''status'', JStr (asc ''healthy''))], 200)"
  using health_always_healthy [of world_readonly req_not_json] by simp






text \<open>
  C10. A 200 response of the usage handler has the body with \<open>"status": "ok"\<close> and the
  fixed, non-empty \<open>message\<close>; it is not the bare object \<open>{"status": "ok"}\<close>.
\<close>

theorem success_body_has_message:
  assumes "fst (receive_usage req w) = Inr (body, 200)"
  shows "body = JObj [(asc ''status'', JStr (asc ''ok'')), (asc ''message'', JStr msg_accepted)] \<and>
         msg_accepted \<noteq> [] \<and>
         body \<noteq> JObj [(asc ''status'', JStr (asc ''ok''))]"
proof -
  obtain r w' where t: "try_body req w = (r, w')" by (cases "try_body req w")
  have "r = Inr (JObj [(asc ''status'', JStr (asc ''ok'')),
                       (asc ''message'', JStr msg_accepted)], 200)"
  proof (cases r)
    case (Inl e)
    with t assms show ?thesis by (simp add: receive_usage_fst)
  next
    case (Inr resp)
    with t show ?thesis
      by (auto simp: try_body_def bind_def ret_def raise_def jsonify2
            split: sum.splits prod.splits)
  qed
  with t assms have b:
    "body = JObj [(asc ''status'', JStr (asc ''ok'')), (asc ''message'', JStr msg_accepted)]"
    by (simp add: receive_usage_fst)
  show ?thesis unfolding b by (simp add: msg_accepted_def)
qed

theorem success_body_has_message_witness:
  "fst (receive_usage req_gpt4 world0) =
     Inr (JObj [(asc ''status'', JStr (asc ''ok'')), (asc ''message'', JStr msg_accepted)], 200) \<and>
   msg_accepted \<noteq> []"
proof -
  have j: "json req_gpt4 = Inr gpt4" by (simp add: req_gpt4_def)
  have e: "encodable (dumps gpt4)" by (simp add: gpt4_def surrogate_def int_repr_def)
  have "fst (try_body req_gpt4 world0) =
     Inr (JObj [(asc ''status'', JStr (asc ''ok'')), (asc ''message'', JStr msg_accepted)], 200)"
    using j e by (rule try_body_appends) (simp_all add: world0_def)
  then have r: "fst (receive_usage req_gpt4 world0) =
     Inr (JObj [(asc ''status'', JStr (asc ''ok'')), (asc ''message'', JStr msg_accepted)], 200)"
    by (simp add: receive_usage_fst)
  from success_body_has_message [OF r] r show ?thesis by simp
qed


end
